theory Spec2Isabelle
  imports Main
begin

section \<open>JavaScript values\<close>

text \<open>
  The script \<^verbatim>\<open>gmail-label-counts.js\<close> handles loosely typed data: whatever
  \<^verbatim>\<open>JSON.parse\<close> returns from a cache file and whatever the remote API answers.
  Values are therefore modelled as a datatype of JavaScript values. Numbers are
  restricted to integers; an object is the list of its own properties in insertion
  order, with pairwise distinct keys (lookups take the first binding).
\<close>

datatype jsval =
    Undefined
  | Null
  | Bool bool
  | Num int
  | Str string
  | Arr "jsval list"
  | Obj "(string \<times> jsval) list"

text \<open>
  What the script can throw: \<^verbatim>\<open>JSON.parse\<close> raises a SyntaxError, a property read on
  \<^verbatim>\<open>null\<close> or \<^verbatim>\<open>undefined\<close> and a call of a missing method raise a TypeError, and
  a rejected API request carries the HTTP status of \<^verbatim>\<open>err.response\<close> when there is
  one.
\<close>

datatype error = SyntaxError | TypeError | RequestError "nat option"

fun status :: "error \<Rightarrow> nat option" where
  "status (RequestError s) = s"
| "status SyntaxError = None"
| "status TypeError = None"

fun truthy :: "jsval \<Rightarrow> bool" where
  "truthy Undefined = False"
| "truthy Null = False"
| "truthy (Bool b) = b"
| "truthy (Num n) = (n \<noteq> 0)"
| "truthy (Str s) = (s \<noteq> [])"
| "truthy (Arr xs) = True"
| "truthy (Obj kvs) = True"

fun isArray :: "jsval \<Rightarrow> bool" where
  "isArray (Arr xs) = True"
| "isArray v = False"

text \<open>
  \<^verbatim>\<open>v.k\<close>: a TypeError on \<^verbatim>\<open>null\<close> and \<^verbatim>\<open>undefined\<close>, the property of an object,
  the length of an array or a string, and \<^verbatim>\<open>undefined\<close> otherwise. The keys the
  script reads (\<^verbatim>\<open>labelIds\<close>, \<^verbatim>\<open>data\<close>, \<^verbatim>\<open>messages\<close>) are not inherited from a
  prototype.
\<close>

fun getProp :: "jsval \<Rightarrow> string \<Rightarrow> error + jsval" where
  "getProp Undefined k = Inl TypeError"
| "getProp Null k = Inl TypeError"
| "getProp (Obj kvs) k = Inr (case map_of kvs k of None \<Rightarrow> Undefined | Some v \<Rightarrow> v)"
| "getProp (Arr xs) k = Inr (if k = ''length'' then Num (int (length xs)) else Undefined)"
| "getProp (Str s) k = Inr (if k = ''length'' then Num (int (length s)) else Undefined)"
| "getProp v k = Inr Undefined"

text \<open>\<^verbatim>\<open>v?.k\<close>: \<^verbatim>\<open>undefined\<close> on \<^verbatim>\<open>null\<close> and \<^verbatim>\<open>undefined\<close>, never an error.\<close>

definition optProp :: "jsval \<Rightarrow> string \<Rightarrow> jsval" where
  "optProp v k = (case getProp v k of Inl e \<Rightarrow> Undefined | Inr x \<Rightarrow> x)"

fun digitsOf :: "nat \<Rightarrow> string" where
  "digitsOf n =
     (if n < 10 then [''0123456789'' ! n]
      else digitsOf (n div 10) @ [''0123456789'' ! (n mod 10)])"

definition showInt :: "int \<Rightarrow> string" where
  "showInt i = (if i < 0 then CHR ''-'' # digitsOf (nat (- i)) else digitsOf (nat i))"

text \<open>\<^verbatim>\<open>v[0]\<close>, as in \<^verbatim>\<open>res.data.messages[0]\<close>.\<close>

fun getIndex0 :: "jsval \<Rightarrow> error + jsval" where
  "getIndex0 Undefined = Inl TypeError"
| "getIndex0 Null = Inl TypeError"
| "getIndex0 (Arr xs) = Inr (case xs of [] \<Rightarrow> Undefined | x # rest \<Rightarrow> x)"
| "getIndex0 (Str s) = Inr (case s of [] \<Rightarrow> Undefined | c # rest \<Rightarrow> Str [c])"
| "getIndex0 (Obj kvs) = Inr (case map_of kvs ''0'' of None \<Rightarrow> Undefined | Some v \<Rightarrow> v)"
| "getIndex0 v = Inr Undefined"

fun joinWith :: "string \<Rightarrow> string list \<Rightarrow> string" where
  "joinWith sep [] = []"
| "joinWith sep [s] = s"
| "joinWith sep (s # t # ss) = s @ sep @ joinWith sep (t # ss)"

text \<open>
  The string conversion of a template literal (\<^verbatim>\<open>`thread-${threadId}.json`\<close>) and of
  a property key (\<^verbatim>\<open>labelCounts[label]\<close>, \<^verbatim>\<open>labelIdToName[id]\<close>).
\<close>

fun toString :: "jsval \<Rightarrow> string" where
  "toString Undefined = ''undefined''"
| "toString Null = ''null''"
| "toString (Bool b) = (if b then ''true'' else ''false'')"
| "toString (Num n) = showInt n"
| "toString (Str s) = s"
| "toString (Arr xs) =
     joinWith '','' (map (\<lambda>x. if x = Undefined \<or> x = Null then [] else toString x) xs)"
| "toString (Obj kvs) = ''[object Object]''"

text \<open>
  \<^verbatim>\<open>JSON.parse(JSON.stringify(v))\<close>: what a later read finds of a value written to a
  file. An \<^verbatim>\<open>undefined\<close> array element is stored as \<^verbatim>\<open>null\<close>, a property whose value
  is \<^verbatim>\<open>undefined\<close> is dropped. The script only ever writes arrays and objects.
\<close>

fun JSON_roundtrip :: "jsval \<Rightarrow> jsval" where
  "JSON_roundtrip (Arr xs) =
     Arr (map (\<lambda>x. if x = Undefined then Null else JSON_roundtrip x) xs)"
| "JSON_roundtrip (Obj kvs) =
     Obj (map (\<lambda>(k, v). (k, JSON_roundtrip v)) (filter (\<lambda>(k, v). v \<noteq> Undefined) kvs))"
| "JSON_roundtrip v = v"

section \<open>The files, the console and the remote API\<close>

text \<open>
  A file of the cache directory is identified with what \<^verbatim>\<open>JSON.parse\<close> makes of its
  text: a value, or a SyntaxError.
\<close>

datatype content = Unparsable | Json jsval

fun JSON_parse :: "content \<Rightarrow> error + jsval" where
  "JSON_parse Unparsable = Inl SyntaxError"
| "JSON_parse (Json v) = Inr v"

text \<open>The \<^verbatim>\<open>console.warn\<close> messages of the script, by kind and interpolated value.\<close>

datatype warning =
    IdCacheLoadFailed
  | SkippingCacheSave string
  | MissingOrEmptyLabels string
  | RateLimitHit int
  | MissingLabelName string

text \<open>
  The state the script reads and changes: \<^verbatim>\<open>.cache/thread-<id>.json\<close> by the
  interpolated identifier, \<^verbatim>\<open>.cache/inbox-thread-ids.json\<close>, the warnings printed so
  far, the delays waited so far (milliseconds), and the requests sent so far:
  the identifiers given to \<^verbatim>\<open>threads.get\<close> and the query, \<^verbatim>\<open>maxResults\<close> and page
  token given to \<^verbatim>\<open>threads.list\<close> (\<open>None\<close> is \<^verbatim>\<open>null\<close> or \<^verbatim>\<open>undefined\<close>).
\<close>

record world =
  threadFiles :: "string \<Rightarrow> content option"
  idsFile :: "content option"
  warnings :: "warning list"
  sleeps :: "int list"
  getCalls :: "jsval list"
  listCalls :: "(string \<times> nat \<times> string option) list"

definition warn :: "warning \<Rightarrow> world \<Rightarrow> world" where
  "warn m w = w\<lparr>warnings := warnings w @ [m]\<rparr>"

text \<open>
  A page of \<^verbatim>\<open>threads.list\<close>: \<^verbatim>\<open>res.data.threads\<close> (the identifiers of the thread
  objects, when the field is there) and \<^verbatim>\<open>res.data.nextPageToken\<close>.
\<close>

record page =
  threads :: "string list option"
  nextPageToken :: "string option"

text \<open>
  The remote side answers a request by its number (how many requests of the kind
  were sent before it) and its arguments, with a rejection or a response.
\<close>

record remote =
  threadsGet :: "nat \<Rightarrow> jsval \<Rightarrow> error + jsval"
  threadsList :: "nat \<Rightarrow> string \<Rightarrow> string option \<Rightarrow> error + page"

section \<open>The caches\<close>

definition getCachedInboxThreadIds :: "world \<Rightarrow> jsval \<times> world" where
  "getCachedInboxThreadIds w =
     (case idsFile w of
        None \<Rightarrow> (Null, w)
      | Some c \<Rightarrow>
          (case JSON_parse c of
             Inr v \<Rightarrow> (v, w)
           | Inl e \<Rightarrow> (Null, warn IdCacheLoadFailed w)))"

definition saveCachedInboxThreadIds :: "jsval \<Rightarrow> world \<Rightarrow> world" where
  "saveCachedInboxThreadIds ids w = w\<lparr>idsFile := Some (Json (JSON_roundtrip ids))\<rparr>"

definition getCachedThread :: "jsval \<Rightarrow> world \<Rightarrow> error + jsval" where
  "getCachedThread threadId w =
     (case threadFiles w (toString threadId) of
        None \<Rightarrow> Inr Null
      | Some c \<Rightarrow> JSON_parse c)"

definition saveCachedThread :: "jsval \<Rightarrow> jsval \<Rightarrow> world \<Rightarrow> (error + unit) \<times> world" where
  "saveCachedThread threadId data w =
     (case getProp data ''labelIds'' of
        Inl e \<Rightarrow> (Inl e, w)
      | Inr l \<Rightarrow>
          if \<not> isArray l then (Inr (), warn (SkippingCacheSave (toString threadId)) w)
          else (Inr (),
                w\<lparr>threadFiles :=
                    (threadFiles w)(toString threadId \<mapsto> Json (JSON_roundtrip data))\<rparr>))"

section \<open>The stability predicate\<close>

text \<open>The distributed ("test") version; it is applied to arrays only.\<close>

definition isStableThread :: "jsval list \<Rightarrow> bool" where
  "isStableThread labelIds = (length labelIds > 0)"

section \<open>The fetcher\<close>

text \<open>\<^verbatim>\<open>res.data.messages[0].labelIds\<close>, with the TypeError of each step.\<close>

definition firstMessageLabels :: "jsval \<Rightarrow> error + jsval" where
  "firstMessageLabels res =
     (case getProp res ''data'' of
        Inl e \<Rightarrow> Inl e
      | Inr d \<Rightarrow>
          (case getProp d ''messages'' of
             Inl e \<Rightarrow> Inl e
           | Inr ms \<Rightarrow>
               (case getIndex0 ms of
                  Inl e \<Rightarrow> Inl e
                | Inr m \<Rightarrow> getProp m ''labelIds'')))"

text \<open>The body of the \<^verbatim>\<open>try\<close> block: the request, then the read of the labels.\<close>

definition attempt :: "remote \<Rightarrow> jsval \<Rightarrow> world \<Rightarrow> error + (jsval \<times> jsval)" where
  "attempt gmail ident w =
     (case threadsGet gmail (length (getCalls w)) ident of
        Inl e \<Rightarrow> Inl e
      | Inr res \<Rightarrow>
          (case firstMessageLabels res of
             Inl e \<Rightarrow> Inl e
           | Inr labelIds \<Rightarrow> Inr (res, labelIds)))"

definition emptyLabels :: "jsval \<Rightarrow> bool" where
  "emptyLabels labelIds = (case labelIds of Arr xs \<Rightarrow> xs = [] | _ \<Rightarrow> True)"

fun safeGetThread :: "remote \<Rightarrow> jsval \<Rightarrow> nat \<Rightarrow> world \<Rightarrow> (error + jsval) \<times> world" where
  "safeGetThread gmail ident retries w =
     (let w1 = w\<lparr>getCalls := getCalls w @ [ident]\<rparr> in
      case attempt gmail ident w of
        Inr (res, labelIds) \<Rightarrow>
          (Inr res,
           if emptyLabels labelIds then warn (MissingOrEmptyLabels (toString ident)) w1 else w1)
      | Inl err \<Rightarrow>
          if retries > 0 \<and> status err = Some 429 then
            let delay = 1000 * (4 - int retries) in
            safeGetThread gmail ident (retries - 1)
              ((warn (RateLimitHit delay) w1)\<lparr>sleeps := sleeps w1 @ [delay]\<rparr>)
          else (Inl err, w1))"

declare safeGetThread.simps [simp del]

section \<open>The working set\<close>

definition tokenTruthy :: "string option \<Rightarrow> bool" where
  "tokenTruthy tok = (case tok of None \<Rightarrow> False | Some t \<Rightarrow> t \<noteq> [])"

text \<open>\<^verbatim>\<open>res.data.threads || []\<close>.\<close>

definition pageIds :: "page \<Rightarrow> string list" where
  "pageIds p = (case threads p of None \<Rightarrow> [] | Some ts \<Rightarrow> ts)"

text \<open>
  The \<^verbatim>\<open>do ... while (nextPageToken)\<close> loop of \<^verbatim>\<open>getInboxThreads\<close>. Nothing bounds the
  number of pages the remote side serves, so the loop takes fuel: one unit per
  request, and \<open>None\<close> when it runs out before the token does.
\<close>

fun listLoop ::
  "nat \<Rightarrow> remote \<Rightarrow> string list \<Rightarrow> string option \<Rightarrow> world \<Rightarrow>
   (error + string list) option \<times> world" where
  "listLoop 0 gmail acc tok w = (None, w)"
| "listLoop (Suc fuel) gmail acc tok w =
     (let w1 = w\<lparr>listCalls := listCalls w @ [(''label:inbox'', 100, tok)]\<rparr> in
      case threadsList gmail (length (listCalls w)) ''label:inbox'' tok of
        Inl e \<Rightarrow> (Some (Inl e), w1)
      | Inr res \<Rightarrow>
          (let acc1 = acc @ pageIds res in
           if tokenTruthy (nextPageToken res)
           then listLoop fuel gmail acc1 (nextPageToken res) w1
           else (Some (Inr acc1), w1)))"

text \<open>
  \<^verbatim>\<open>getInboxThreads\<close>; a thread object is given by its \<^verbatim>\<open>id\<close>. A cached value that
  is truthy and has no \<^verbatim>\<open>map\<close> method is a TypeError.
\<close>

definition getInboxThreads ::
  "nat \<Rightarrow> remote \<Rightarrow> world \<Rightarrow> (error + jsval list) option \<times> world" where
  "getInboxThreads fuel gmail w =
     (case getCachedInboxThreadIds w of
        (threadIds, w0) \<Rightarrow>
          if truthy threadIds then
            (case threadIds of
               Arr xs \<Rightarrow> (Some (Inr xs), w0)
             | other \<Rightarrow> (Some (Inl TypeError), w0))
          else
            (case listLoop fuel gmail [] None w0 of
               (None, w1) \<Rightarrow> (None, w1)
             | (Some (Inl e), w1) \<Rightarrow> (Some (Inl e), w1)
             | (Some (Inr ts), w1) \<Rightarrow>
                 (Some (Inr (map Str ts)),
                  saveCachedInboxThreadIds (Arr (map Str ts)) w1)))"

section \<open>The aggregation\<close>

text \<open>
  An element of \<^verbatim>\<open>labelResults\<close>: the scan of the cache pushes
  \<^verbatim>\<open>{ id, labelIds, fromCache: true }\<close>, a fetch pushes
  \<^verbatim>\<open>{ id, labelNames, fromCache: false }\<close>. An absent field is \<open>None\<close>.
\<close>

record labelResult =
  thread_id :: jsval
  labelIds :: "jsval list option"
  labelNames :: "jsval list option"
  fromCache :: bool

text \<open>The variables the scan of the cache (phase 1) updates.\<close>

record scan =
  labelResults :: "labelResult list"
  toFetch :: "jsval list"
  validCached :: nat
  invalidOrMissing :: nat

definition emptyScan :: scan where
  "emptyScan = \<lparr>labelResults = [], toFetch = [], validCached = 0, invalidOrMissing = 0\<rparr>"

definition unlinkThread :: "jsval \<Rightarrow> world \<Rightarrow> world" where
  "unlinkThread ident w = w\<lparr>threadFiles := (threadFiles w)(toString ident := None)\<rparr>"

text \<open>
  One callback of phase 1. The callbacks hold no \<^verbatim>\<open>await\<close>, so they run one after
  the other, in the order of \<^verbatim>\<open>threads\<close>. The \<^verbatim>\<open>catch\<close> takes the SyntaxError of
  \<^verbatim>\<open>getCachedThread\<close>.
\<close>

definition scanThread :: "jsval list \<Rightarrow> jsval \<Rightarrow> scan \<times> world \<Rightarrow> scan \<times> world" where
  "scanThread inboxThreadIds ident sw =
     (case sw of (s, w) \<Rightarrow>
        (case getCachedThread ident w of
           Inl e \<Rightarrow>
             (s\<lparr>toFetch := toFetch s @ [ident], invalidOrMissing := invalidOrMissing s + 1\<rparr>, w)
         | Inr cache \<Rightarrow>
             (case optProp cache ''labelIds'' of
                Arr ls \<Rightarrow>
                  if ident \<notin> set inboxThreadIds then (s, unlinkThread ident w)
                  else if isStableThread ls then
                    (s\<lparr>labelResults := labelResults s @
                         [\<lparr>thread_id = ident, labelIds = Some ls, labelNames = None,
                           fromCache = True\<rparr>],
                       validCached := validCached s + 1\<rparr>, w)
                  else (s\<lparr>toFetch := toFetch s @ [ident]\<rparr>, w)
              | other \<Rightarrow>
                  (s\<lparr>toFetch := toFetch s @ [ident],
                     invalidOrMissing := invalidOrMissing s + 1\<rparr>, w))))"

definition scanPhase :: "jsval list \<Rightarrow> world \<Rightarrow> scan \<times> world" where
  "scanPhase threadIds w = fold (scanThread threadIds) threadIds (emptyScan, w)"

text \<open>\<^verbatim>\<open>labelIdToName[id]\<close>, for the map \<^verbatim>\<open>loadLabelMaps\<close> built.\<close>

definition lookupName :: "(string \<Rightarrow> string option) \<Rightarrow> jsval \<Rightarrow> jsval" where
  "lookupName labelIdToName ident =
     (case labelIdToName (toString ident) of None \<Rightarrow> Undefined | Some n \<Rightarrow> Str n)"

text \<open>
  One fetch of phase 2; \<open>now\<close> is \<^verbatim>\<open>new Date().toISOString()\<close>. A value without a
  \<^verbatim>\<open>map\<close> method in place of the label array is a TypeError.
\<close>

definition fetchThread ::
  "remote \<Rightarrow> (string \<Rightarrow> string option) \<Rightarrow> string \<Rightarrow> jsval \<Rightarrow>
   labelResult list \<times> world \<Rightarrow> (error + labelResult list) \<times> world" where
  "fetchThread gmail labelIdToName now ident rw =
     (case rw of (rs, w) \<Rightarrow>
        (case safeGetThread gmail ident 3 w of
           (Inl e, w1) \<Rightarrow> (Inl e, w1)
         | (Inr full, w1) \<Rightarrow>
             (case firstMessageLabels full of
                Inl e \<Rightarrow> (Inl e, w1)
              | Inr l \<Rightarrow>
                  (let ls = (if truthy l then l else Arr []) in
                   case saveCachedThread ident
                          (Obj [(''labelIds'', ls), (''cachedAt'', Str now)]) w1 of
                     (Inl e, w2) \<Rightarrow> (Inl e, w2)
                   | (Inr u, w2) \<Rightarrow>
                       (case ls of
                          Arr xs \<Rightarrow>
                            (Inr (rs @
                               [\<lparr>thread_id = ident, labelIds = None,
                                 labelNames = Some (map (lookupName labelIdToName) xs),
                                 fromCache = False\<rparr>]), w2)
                        | other \<Rightarrow> (Inl TypeError, w2))))))"

text \<open>
  Phase 2. The source keeps up to three fetches in flight (\<^verbatim>\<open>pLimit(3)\<close>) and the
  first rejection rejects \<^verbatim>\<open>Promise.all\<close> and with it the run. The model is one
  schedule of it: the fetches run one at a time in the order of \<^verbatim>\<open>toFetch\<close>, and none
  is started after the first failure. For a queue of two or more threads the
  requests sent, the files written and the error that ends the run depend on the
  interleaving, so a property of a run is stated either for a queue of at most one
  thread, where the schedule is the only one, or in a form that holds under every
  interleaving.
\<close>

fun fetchPhase ::
  "remote \<Rightarrow> (string \<Rightarrow> string option) \<Rightarrow> string \<Rightarrow> jsval list \<Rightarrow>
   labelResult list \<times> world \<Rightarrow> (error + labelResult list) \<times> world" where
  "fetchPhase gmail labelIdToName now [] rw = (Inr (fst rw), snd rw)"
| "fetchPhase gmail labelIdToName now (t # ts) rw =
     (case fetchThread gmail labelIdToName now t rw of
        (Inl e, w1) \<Rightarrow> (Inl e, w1)
      | (Inr rs1, w1) \<Rightarrow> fetchPhase gmail labelIdToName now ts (rs1, w1))"

text \<open>
  \<^verbatim>\<open>labelCounts[label] = (labelCounts[label] || 0) + 1\<close> on the table, kept as the
  list of its entries in insertion order. The table of the source is a plain object:
  keys it inherits (\<^verbatim>\<open>constructor\<close>, \<^verbatim>\<open>__proto__\<close>) and the place of integer-like
  keys in \<^verbatim>\<open>Object.entries\<close> are outside this model, which is meant for label keys
  that are neither.
\<close>

fun bump :: "(string \<times> nat) list \<Rightarrow> string \<Rightarrow> (string \<times> nat) list" where
  "bump [] k = [(k, 1)]"
| "bump ((k', n) # rest) k =
     (if k' = k then (k', n + 1) # rest else (k', n) # bump rest k)"

definition countLabel :: "jsval \<Rightarrow> (string \<times> nat) list \<Rightarrow> (string \<times> nat) list" where
  "countLabel label labelCounts =
     (if label \<noteq> Str ''INBOX'' then bump labelCounts (toString label) else labelCounts)"

record counts =
  labelCounts :: "(string \<times> nat) list"
  usedCache :: nat
  usedApi :: nat

definition countThread :: "jsval list \<Rightarrow> labelResult \<Rightarrow> counts \<Rightarrow> counts" where
  "countThread inboxThreadIds t c =
     (if thread_id t \<notin> set inboxThreadIds then c
      else
        (let labels =
               (case labelIds t of
                  Some ls \<Rightarrow> ls
                | None \<Rightarrow> (case labelNames t of Some ns \<Rightarrow> ns | None \<Rightarrow> []))
         in \<lparr>labelCounts = fold countLabel labels (labelCounts c),
             usedCache = (if fromCache t then usedCache c + 1 else usedCache c),
             usedApi = (if fromCache t then usedApi c else usedApi c + 1)\<rparr>))"

definition countPhase :: "jsval list \<Rightarrow> labelResult list \<Rightarrow> counts" where
  "countPhase inboxThreadIds rs =
     fold (countThread inboxThreadIds) rs \<lparr>labelCounts = [], usedCache = 0, usedApi = 0\<rparr>"

text \<open>
  Phases 1 to 3 of \<^verbatim>\<open>listInboxLabelCounts\<close>, from the working set \<^verbatim>\<open>threads\<close> (each
  thread object by its \<^verbatim>\<open>id\<close>) to the Label Count Table.
\<close>

definition aggregate ::
  "remote \<Rightarrow> (string \<Rightarrow> string option) \<Rightarrow> string \<Rightarrow> jsval list \<Rightarrow> world \<Rightarrow>
   (error + counts) \<times> world" where
  "aggregate gmail labelIdToName now threadIds w =
     (case scanPhase threadIds w of
        (s, w1) \<Rightarrow>
          (case fetchPhase gmail labelIdToName now (toFetch s) (labelResults s, w1) of
             (Inl e, w2) \<Rightarrow> (Inl e, w2)
           | (Inr rs, w2) \<Rightarrow> (Inr (countPhase threadIds rs), w2)))"

section \<open>The report\<close>

text \<open>
  The comparator given to \<^verbatim>\<open>sort\<close>: it warns about each of its two keys that has no
  (or an empty) name, then compares the names by \<^verbatim>\<open>localeCompare\<close>, a parameter of
  the model.
\<close>

definition nameOrEmpty :: "(string \<Rightarrow> string option) \<Rightarrow> string \<Rightarrow> string" where
  "nameOrEmpty labelIdToName a = (case labelIdToName a of None \<Rightarrow> [] | Some n \<Rightarrow> n)"

definition compareEntries ::
  "(string \<Rightarrow> string \<Rightarrow> int) \<Rightarrow> (string \<Rightarrow> string option) \<Rightarrow>
   string \<times> nat \<Rightarrow> string \<times> nat \<Rightarrow> world \<Rightarrow> int \<times> world" where
  "compareEntries localeCompare labelIdToName ea eb w =
     (let a = fst ea; b = fst eb;
          nameA = nameOrEmpty labelIdToName a;
          nameB = nameOrEmpty labelIdToName b;
          w1 = (if nameA = [] then warn (MissingLabelName a) w else w);
          w2 = (if nameB = [] then warn (MissingLabelName b) w1 else w1)
      in (localeCompare nameA nameB, w2))"

text \<open>
  \<^verbatim>\<open>Array.prototype.sort\<close> is stable, and which pairs it compares is left to the
  engine. The model is a straight insertion sort: each entry in turn is compared
  with the entries already placed, from the last one down, and put behind the first
  that is not greater. The placed entries are kept in reverse.
\<close>

fun insertEntry ::
  "('a \<Rightarrow> 'a \<Rightarrow> world \<Rightarrow> int \<times> world) \<Rightarrow> 'a \<Rightarrow> 'a list \<Rightarrow> world \<Rightarrow> 'a list \<times> world" where
  "insertEntry cmp x [] w = ([x], w)"
| "insertEntry cmp x (y # placed) w =
     (case cmp y x w of
        (c, w1) \<Rightarrow>
          if c > 0 then
            (case insertEntry cmp x placed w1 of (placed1, w2) \<Rightarrow> (y # placed1, w2))
          else (x # y # placed, w1))"

fun sortLoop ::
  "('a \<Rightarrow> 'a \<Rightarrow> world \<Rightarrow> int \<times> world) \<Rightarrow> 'a list \<Rightarrow> 'a list \<Rightarrow> world \<Rightarrow> 'a list \<times> world" where
  "sortLoop cmp [] placed w = (rev placed, w)"
| "sortLoop cmp (x # xs) placed w =
     (case insertEntry cmp x placed w of (placed1, w1) \<Rightarrow> sortLoop cmp xs placed1 w1)"

definition padEnd :: "nat \<Rightarrow> string \<Rightarrow> string" where
  "padEnd n s = s @ replicate (n - length s) CHR '' ''"

definition renderRow :: "(string \<Rightarrow> string option) \<Rightarrow> string \<times> nat \<Rightarrow> string" where
  "renderRow labelIdToName e =
     (let name = (if nameOrEmpty labelIdToName (fst e) = []
                  then ''(missing name: '' @ fst e @ '')''
                  else nameOrEmpty labelIdToName (fst e))
      in padEnd 30 name @ digitsOf (snd e))"

text \<open>
  The table printed after the counting: the two header lines, then one row per entry
  of \<^verbatim>\<open>labelCounts\<close> in sorted order. Returns the lines printed.
\<close>

definition report ::
  "(string \<Rightarrow> string \<Rightarrow> int) \<Rightarrow> (string \<Rightarrow> string option) \<Rightarrow>
   (string \<times> nat) list \<Rightarrow> world \<Rightarrow> string list \<times> world" where
  "report localeCompare labelIdToName entries w =
     (case sortLoop (compareEntries localeCompare labelIdToName) entries [] w of
        (sorted_entries, w1) \<Rightarrow>
          ([padEnd 30 ''Label Name'' @ ''Inbox Threads'', replicate 40 CHR ''=''] @
           map (renderRow labelIdToName) sorted_entries, w1))"

section \<open>Example inputs\<close>

definition emptyWorld :: world where
  "emptyWorld =
     \<lparr>threadFiles = (\<lambda>p. None), idsFile = None, warnings = [], sleeps = [],
      getCalls = [], listCalls = []\<rparr>"

text \<open>A cache file as \<^verbatim>\<open>saveCachedThread\<close> writes it, and a response of \<^verbatim>\<open>threads.get\<close>.\<close>

definition cacheEntry :: "jsval list \<Rightarrow> string \<Rightarrow> content" where
  "cacheEntry ls at = Json (Obj [(''labelIds'', Arr ls), (''cachedAt'', Str at)])"

definition threadResponse :: "jsval \<Rightarrow> jsval" where
  "threadResponse ls = Obj [(''data'', Obj [(''messages'', Arr [Obj [(''labelIds'', ls)]])])]"

text \<open>
  The scenario of the specification: \<^verbatim>\<open>t1\<close> is cached, \<^verbatim>\<open>t2\<close> is not and the remote
  side knows it; the labels \<^verbatim>\<open>L_A\<close> and \<^verbatim>\<open>L_B\<close> are named Alpha and Beta.
\<close>

definition scenarioWorld :: world where
  "scenarioWorld =
     emptyWorld\<lparr>threadFiles := [''t1'' \<mapsto> cacheEntry [Str ''INBOX'', Str ''L_A''] ''earlier'']\<rparr>"

definition scenarioRemote :: remote where
  "scenarioRemote =
     \<lparr>threadsGet = (\<lambda>k i. if i = Str ''t2''
                             then Inr (threadResponse (Arr [Str ''INBOX'', Str ''L_B'']))
                             else Inl (RequestError (Some 404))),
      threadsList = (\<lambda>k q t. Inl (RequestError None))\<rparr>"

definition scenarioNames :: "string \<Rightarrow> string option" where
  "scenarioNames = [''INBOX'' \<mapsto> ''INBOX'', ''L_A'' \<mapsto> ''Alpha'', ''L_B'' \<mapsto> ''Beta'']"

text \<open>A cache that still holds \<^verbatim>\<open>t9\<close>, a thread that has left the inbox.\<close>

definition staleWorld :: world where
  "staleWorld =
     emptyWorld\<lparr>threadFiles :=
       [''t1'' \<mapsto> cacheEntry [Str ''INBOX'', Str ''L_A''] ''earlier'',
        ''t9'' \<mapsto> cacheEntry [Str ''INBOX'', Str ''L_Z''] ''earlier'']\<rparr>"

text \<open>A cache whose file for \<^verbatim>\<open>t1\<close> does not parse.\<close>

definition malformedWorld :: world where
  "malformedWorld = emptyWorld\<lparr>threadFiles := [''t1'' \<mapsto> Unparsable]\<rparr>"



text \<open>A remote side on which every thread has an empty label list.\<close>

definition unlabelledRemote :: remote where
  "unlabelledRemote =
     \<lparr>threadsGet = (\<lambda>k i. Inr (threadResponse (Arr []))),
      threadsList = (\<lambda>k q t. Inl (RequestError None))\<rparr>"

text \<open>The state a first run on the scenario leaves, at the time \<^verbatim>\<open>first\<close>.\<close>

definition afterFirstRun :: world where
  "afterFirstRun =
     scenarioWorld\<lparr>threadFiles :=
         (threadFiles scenarioWorld)(''t2'' \<mapsto> cacheEntry [Str ''INBOX'', Str ''L_B''] ''first''),
       getCalls := [Str ''t2'']\<rparr>"

text \<open>A Thread ID Cache that holds two identifiers.\<close>

definition cachedIdsWorld :: world where
  "cachedIdsWorld = emptyWorld\<lparr>idsFile := Some (Json (Arr [Str ''t1'', Str ''t2'']))\<rparr>"

text \<open>An inbox the remote side lists in two pages.\<close>

definition twoPages :: remote where
  "twoPages =
     \<lparr>threadsGet = (\<lambda>k i. Inl (RequestError (Some 404))),
      threadsList = (\<lambda>k q tok.
        if tok = None then Inr \<lparr>threads = Some [''t1'', ''t2''], nextPageToken = Some ''p2''\<rparr>
        else if tok = Some ''p2'' then Inr \<lparr>threads = Some [''t3''], nextPageToken = None\<rparr>
        else Inl (RequestError (Some 400)))\<rparr>"

section \<open>Notions used in the statements\<close>

text \<open>
  What the scan of the cache reads for an identifier (\<^verbatim>\<open>cache?.labelIds\<close>, and
  \<^verbatim>\<open>undefined\<close> when the file does not parse); whether it trusts the entry (an
  array the stability predicate accepts); the result it pushes for a trusted entry;
  whether no identifier of a list is cached with an empty label list; whether an
  identifier is cached with an array.
\<close>

definition cachedLabels :: "world \<Rightarrow> jsval \<Rightarrow> jsval" where
  "cachedLabels w ident =
     (case getCachedThread ident w of Inl e \<Rightarrow> Undefined | Inr cache \<Rightarrow> optProp cache ''labelIds'')"

definition cacheTrusted :: "world \<Rightarrow> jsval \<Rightarrow> bool" where
  "cacheTrusted w ident = (case cachedLabels w ident of Arr ls \<Rightarrow> isStableThread ls | other \<Rightarrow> False)"

definition cachedResult :: "world \<Rightarrow> jsval \<Rightarrow> labelResult" where
  "cachedResult w ident =
     \<lparr>thread_id = ident,
      labelIds = Some (case cachedLabels w ident of Arr ls \<Rightarrow> ls | other \<Rightarrow> []),
      labelNames = None, fromCache = True\<rparr>"

definition noEmptyCached :: "jsval list \<Rightarrow> world \<Rightarrow> bool" where
  "noEmptyCached ids w = list_all (\<lambda>i. cachedLabels w i \<noteq> Arr []) ids"

definition arrayCached :: "world \<Rightarrow> jsval \<Rightarrow> bool" where
  "arrayCached w ident = isArray (cachedLabels w ident)"

text \<open>
  The pages the remote side serves for the inbox query from request number \<open>k\<close>
  and page token \<open>tok\<close> on, each under the token of the page before it, up to the
  first page without a (non-empty) token; and the requests that ask for them.
\<close>

fun servedPages :: "remote \<Rightarrow> nat \<Rightarrow> string option \<Rightarrow> page list \<Rightarrow> bool" where
  "servedPages gmail k tok [] = False"
| "servedPages gmail k tok (p # ps) =
     (threadsList gmail k ''label:inbox'' tok = Inr p \<and>
      (if ps = [] then \<not> tokenTruthy (nextPageToken p)
       else tokenTruthy (nextPageToken p) \<and> servedPages gmail (Suc k) (nextPageToken p) ps))"

definition listRequests :: "string option \<Rightarrow> page list \<Rightarrow> (string \<times> nat \<times> string option) list" where
  "listRequests tok ps = map (\<lambda>t. (''label:inbox'', 100, t)) (tok # map nextPageToken (butlast ps))"

section \<open>Lemmas about the phases\<close>




lemma scanThread_member:
  assumes "ident \<in> set inbox"
  shows "snd (scanThread inbox ident (s, w)) = w"
    and "labelResults (fst (scanThread inbox ident (s, w))) =
           labelResults s @ (if cacheTrusted w ident then [cachedResult w ident] else [])"
    and "toFetch (fst (scanThread inbox ident (s, w))) =
           toFetch s @ (if cacheTrusted w ident then [] else [ident])"
  using assms
  by (auto simp: scanThread_def cacheTrusted_def cachedResult_def cachedLabels_def
      split: sum.split jsval.split)

lemma scan_fold:
  assumes "set xs \<subseteq> set inbox"
  shows "snd (fold (scanThread inbox) xs (s, w)) = w \<and>
         labelResults (fst (fold (scanThread inbox) xs (s, w))) =
           labelResults s @ map (cachedResult w) (filter (cacheTrusted w) xs) \<and>
         toFetch (fst (fold (scanThread inbox) xs (s, w))) =
           toFetch s @ filter (\<lambda>i. \<not> cacheTrusted w i) xs"
  using assms
proof (induction xs arbitrary: s)
  case Nil
  show ?case by simp
next
  case (Cons x xs)
  then have x: "x \<in> set inbox" and xs: "set xs \<subseteq> set inbox" by auto
  obtain s1 where s1: "scanThread inbox x (s, w) = (s1, w)"
    using scanThread_member(1) [OF x, of s w] by (cases "scanThread inbox x (s, w)") auto
  have l: "labelResults s1 = labelResults s @ (if cacheTrusted w x then [cachedResult w x] else [])"
    using scanThread_member(2) [OF x, of s w] s1 by simp
  have t: "toFetch s1 = toFetch s @ (if cacheTrusted w x then [] else [x])"
    using scanThread_member(3) [OF x, of s w] s1 by simp
  show ?case
    using Cons.IH [OF xs, of s1] by (simp add: s1 l t)
qed

lemma scanPhase_eq:
  "snd (scanPhase ids w) = w \<and>
   labelResults (fst (scanPhase ids w)) = map (cachedResult w) (filter (cacheTrusted w) ids) \<and>
   toFetch (fst (scanPhase ids w)) = filter (\<lambda>i. \<not> cacheTrusted w i) ids"
  using scan_fold [of ids ids emptyScan w] by (simp add: scanPhase_def emptyScan_def)

lemma safeGetThread_threadFiles:
  "threadFiles (snd (safeGetThread gmail ident retries w)) = threadFiles w"
proof (induction gmail ident retries w rule: safeGetThread.induct)
  case (1 gmail ident retries w)
  show ?case
    apply (subst safeGetThread.simps)
    apply (simp add: Let_def warn_def split: sum.split prod.split)
    using 1 by (simp add: warn_def)
qed

lemma fetchThread_files:
  assumes "fetchThread gmail names now t (rs, w) = (Inr rs1, w1)"
  shows "\<exists>xs. threadFiles w1 =
           (threadFiles w)(toString t \<mapsto>
              Json (Obj [(''labelIds'', Arr xs), (''cachedAt'', Str now)]))"
proof -
  obtain r w0 where g: "safeGetThread gmail t 3 w = (r, w0)"
    by (cases "safeGetThread gmail t 3 w") auto
  have f: "threadFiles w0 = threadFiles w"
    using safeGetThread_threadFiles [of gmail t 3 w] g by simp
  show ?thesis
    using assms g f
    by (auto simp: fetchThread_def saveCachedThread_def Let_def
        split: sum.splits jsval.splits if_splits)
qed

lemma fetchThread_arrayCached:
  assumes "fetchThread gmail names now t (rs, w) = (Inr rs1, w1)"
  shows "arrayCached w1 t" and "arrayCached w i \<Longrightarrow> arrayCached w1 i"
proof -
  obtain xs where f: "threadFiles w1 =
      (threadFiles w)(toString t \<mapsto> Json (Obj [(''labelIds'', Arr xs), (''cachedAt'', Str now)]))"
    using fetchThread_files [OF assms] by blast
  show "arrayCached w1 t"
    by (simp add: arrayCached_def cachedLabels_def getCachedThread_def optProp_def f)
  show "arrayCached w i \<Longrightarrow> arrayCached w1 i"
    by (simp add: arrayCached_def cachedLabels_def getCachedThread_def optProp_def f)
qed

lemma fetchPhase_arrayCached:
  "fetchPhase gmail names now ts (rs, w) = (Inr rs1, w1) \<Longrightarrow>
   (\<forall>i. arrayCached w i \<longrightarrow> arrayCached w1 i) \<and> (\<forall>t \<in> set ts. arrayCached w1 t)"
proof (induction ts arbitrary: rs w)
  case Nil
  then show ?case by simp
next
  case (Cons t ts)
  from Cons.prems obtain rs0 w0 where
    step: "fetchThread gmail names now t (rs, w) = (Inr rs0, w0)" and
    rest: "fetchPhase gmail names now ts (rs0, w0) = (Inr rs1, w1)"
    by (auto split: prod.splits sum.splits)
  have ih: "(\<forall>i. arrayCached w0 i \<longrightarrow> arrayCached w1 i) \<and> (\<forall>t \<in> set ts. arrayCached w1 t)"
    using Cons.IH [OF rest] .
  show ?case
    using ih fetchThread_arrayCached [OF step] by auto
qed

lemma aggregate_arrayCached:
  assumes "aggregate gmail names now ids w = (Inr c, w1)"
  shows "\<forall>i \<in> set ids. arrayCached w1 i"
proof
  fix i assume i: "i \<in> set ids"
  obtain s w0 where sp: "scanPhase ids w = (s, w0)" by (cases "scanPhase ids w") auto
  have w0: "w0 = w" and tf: "toFetch s = filter (\<lambda>i. \<not> cacheTrusted w i) ids"
    using scanPhase_eq [of ids w] sp by simp_all
  from assms sp obtain rs where
    fp: "fetchPhase gmail names now (toFetch s) (labelResults s, w0) = (Inr rs, w1)"
    by (auto simp: aggregate_def split: prod.splits sum.splits)
  note inv = fetchPhase_arrayCached [OF fp]
  show "arrayCached w1 i"
  proof (cases "cacheTrusted w i")
    case True
    then have "arrayCached w i"
      by (auto simp: cacheTrusted_def arrayCached_def split: jsval.splits)
    with inv w0 show ?thesis by simp
  next
    case False
    with i tf have "i \<in> set (toFetch s)" by simp
    with inv show ?thesis by simp
  qed
qed

lemma aggregate_all_trusted:
  assumes "\<forall>i \<in> set ids. cacheTrusted w i"
  shows "aggregate gmail names now ids w =
           (Inr (countPhase ids (map (cachedResult w) ids)), w)"
proof -
  have f1: "filter (cacheTrusted w) ids = ids" and f2: "filter (\<lambda>i. \<not> cacheTrusted w i) ids = []"
    using assms by (simp_all add: filter_id_conv filter_empty_conv)
  obtain s w0 where sp: "scanPhase ids w = (s, w0)" by (cases "scanPhase ids w") auto
  have "w0 = w" "labelResults s = map (cachedResult w) ids" "toFetch s = []"
    using scanPhase_eq [of ids w] sp f1 f2 by simp_all
  then show ?thesis
    by (simp add: aggregate_def sp)
qed

lemma fetchThread_other_files:
  assumes "p \<noteq> toString t"
  shows "threadFiles (snd (fetchThread gmail names now t (rs, w))) p = threadFiles w p"
proof -
  obtain r w0 where g: "safeGetThread gmail t 3 w = (r, w0)"
    by (cases "safeGetThread gmail t 3 w") auto
  have f: "threadFiles w0 = threadFiles w"
    using safeGetThread_threadFiles [of gmail t 3 w] g by simp
  show ?thesis
    using assms g f
    by (auto simp: fetchThread_def saveCachedThread_def Let_def warn_def
        split: sum.splits jsval.splits if_splits)
qed

lemma fetchPhase_other_files:
  "p \<notin> toString ` set ts \<Longrightarrow>
   threadFiles (snd (fetchPhase gmail names now ts (rs, w))) p = threadFiles w p"
proof (induction ts arbitrary: rs w)
  case Nil
  show ?case by simp
next
  case (Cons t ts)
  then have p: "p \<noteq> toString t" and ps: "p \<notin> toString ` set ts" by auto
  obtain r w0 where step: "fetchThread gmail names now t (rs, w) = (r, w0)"
    by (cases "fetchThread gmail names now t (rs, w)") auto
  have w0: "threadFiles w0 p = threadFiles w p"
    using fetchThread_other_files [OF p, of gmail names now rs w] step by simp
  show ?case
  proof (cases r)
    case (Inl e)
    with step w0 show ?thesis by simp
  next
    case (Inr rs0)
    with step w0 Cons.IH [OF ps, of rs0 w0] show ?thesis by simp
  qed
qed

lemma listLoop_servedPages:
  "servedPages gmail (length (listCalls w)) tok ps \<Longrightarrow> length ps \<le> fuel \<Longrightarrow>
   listLoop fuel gmail acc tok w =
     (Some (Inr (acc @ concat (map pageIds ps))),
      w\<lparr>listCalls := listCalls w @ listRequests tok ps\<rparr>)"
proof (induction ps arbitrary: fuel acc tok w)
  case Nil
  then show ?case by simp
next
  case (Cons p ps)
  from Cons.prems(2) obtain fuel' where fuel: "fuel = Suc fuel'" and le: "length ps \<le> fuel'"
    by (cases fuel) auto
  from Cons.prems(1) have p: "threadsList gmail (length (listCalls w)) ''label:inbox'' tok = Inr p"
    by simp
  show ?case
  proof (cases "ps = []")
    case True
    with Cons.prems(1) have "\<not> tokenTruthy (nextPageToken p)" by simp
    with True p show ?thesis
      by (simp add: fuel listRequests_def)
  next
    case False
    with Cons.prems(1) have tk: "tokenTruthy (nextPageToken p)"
      and sv: "servedPages gmail (Suc (length (listCalls w))) (nextPageToken p) ps"
      by simp_all
    let ?w1 = "w\<lparr>listCalls := listCalls w @ [(''label:inbox'', 100, tok)]\<rparr>"
    have sv1: "servedPages gmail (length (listCalls ?w1)) (nextPageToken p) ps"
      using sv by simp
    have "listLoop fuel' gmail (acc @ pageIds p) (nextPageToken p) ?w1 =
       (Some (Inr ((acc @ pageIds p) @ concat (map pageIds ps))),
        ?w1\<lparr>listCalls := listCalls ?w1 @ listRequests (nextPageToken p) ps\<rparr>)"
      by (rule Cons.IH [OF sv1 le])
    with p tk False show ?thesis
      by (simp add: fuel listRequests_def Let_def)
  qed
qed

lemma JSON_roundtrip_strings: "JSON_roundtrip (Arr (map Str ts)) = Arr (map Str ts)"
  by (induction ts) auto

lemma getCachedInboxThreadIds_truthy:
  "truthy (fst (getCachedInboxThreadIds w)) \<Longrightarrow> snd (getCachedInboxThreadIds w) = w"
  by (auto simp: getCachedInboxThreadIds_def warn_def split: option.splits sum.splits)

section \<open>Properties of the stability predicate\<close>

text \<open>
  C6. Under the distributed predicate a label list is stable exactly when it is not
  empty: the empty list is not stable, and every list with at least one element is.
\<close>

theorem isStableThread_nonempty:
  "isStableThread L = (L \<noteq> []) \<and> isStableThread [] = False \<and> isStableThread (x # xs) = True"
  by (simp add: isStableThread_def)

section \<open>Properties of the metadata cache\<close>

text \<open>
  C4, as the claim states it, fails: on a file that does not parse the read
  operation raises the SyntaxError of \<^verbatim>\<open>JSON.parse\<close> to its caller.
\<close>

theorem getCachedThread_malformed_raises:
  "threadFiles malformedWorld (toString (Str ''t1'')) = Some Unparsable \<and>
   getCachedThread (Str ''t1'') malformedWorld = Inl SyntaxError"
  by (simp add: getCachedThread_def malformedWorld_def emptyWorld_def)

text \<open>
  C4, amended. The read operation returns \<^verbatim>\<open>null\<close> when the identifier has no file
  and the parsed value when the file parses; when the file does not parse it raises
  a SyntaxError, which the scan of the cache catches: the thread is queued for a
  fetch and counted as invalid, and the state, the warnings with it, is as before.
\<close>

theorem getCachedThread_cases:
  "(threadFiles w (toString ident) = None \<longrightarrow> getCachedThread ident w = Inr Null) \<and>
   (threadFiles w (toString ident) = Some (Json v) \<longrightarrow> getCachedThread ident w = Inr v) \<and>
   (threadFiles w (toString ident) = Some Unparsable \<longrightarrow>
      getCachedThread ident w = Inl SyntaxError \<and>
      scanThread inbox ident (s, w) =
        (s\<lparr>toFetch := toFetch s @ [ident], invalidOrMissing := invalidOrMissing s + 1\<rparr>, w))"
  by (simp add: getCachedThread_def scanThread_def)

theorem getCachedThread_cases_witness:
  "getCachedThread (Str ''t2'') malformedWorld = Inr Null \<and>
   getCachedThread (Str ''t1'') scenarioWorld =
     Inr (Obj [(''labelIds'', Arr [Str ''INBOX'', Str ''L_A'']), (''cachedAt'', Str ''earlier'')]) \<and>
   getCachedThread (Str ''t1'') malformedWorld = Inl SyntaxError \<and>
   scanThread [Str ''t1''] (Str ''t1'') (emptyScan, malformedWorld) =
     (emptyScan\<lparr>toFetch := [Str ''t1''], invalidOrMissing := 1\<rparr>, malformedWorld) \<and>
   warnings (snd (scanThread [Str ''t1''] (Str ''t1'') (emptyScan, malformedWorld))) = []"
  using getCachedThread_cases [of malformedWorld "Str ''t2''" Null "[Str ''t1'']" emptyScan]
    getCachedThread_cases [of scenarioWorld "Str ''t1''"
      "Obj [(''labelIds'', Arr [Str ''INBOX'', Str ''L_A'']), (''cachedAt'', Str ''earlier'')]"
      "[Str ''t1'']" emptyScan]
    getCachedThread_cases [of malformedWorld "Str ''t1''" Null "[Str ''t1'']" emptyScan]
  by (simp add: malformedWorld_def scenarioWorld_def cacheEntry_def emptyWorld_def emptyScan_def)

text \<open>
  C5. Whenever the \<^verbatim>\<open>labelIds\<close> property of the entry can be read and is not an
  array, the write operation returns normally, prints one warning and changes
  nothing else: the file of the identifier, like every other file, is as before.
\<close>

theorem saveCachedThread_rejects_non_array:
  "getProp data ''labelIds'' = Inr l \<Longrightarrow> \<not> isArray l \<Longrightarrow>
   saveCachedThread ident data w = (Inr (), warn (SkippingCacheSave (toString ident)) w) \<and>
   threadFiles (snd (saveCachedThread ident data w)) = threadFiles w \<and>
   idsFile (snd (saveCachedThread ident data w)) = idsFile w"
  by (simp add: saveCachedThread_def warn_def)

theorem saveCachedThread_rejects_non_array_witness:
  "getProp (Obj [(''labelIds'', Str ''L_A''), (''cachedAt'', Str ''now'')]) ''labelIds'' =
     Inr (Str ''L_A'') \<and>
   \<not> isArray (Str ''L_A'') \<and>
   fst (saveCachedThread (Str ''t1'')
          (Obj [(''labelIds'', Str ''L_A''), (''cachedAt'', Str ''now'')]) scenarioWorld) = Inr () \<and>
   warnings (snd (saveCachedThread (Str ''t1'')
          (Obj [(''labelIds'', Str ''L_A''), (''cachedAt'', Str ''now'')]) scenarioWorld)) =
     [SkippingCacheSave ''t1''] \<and>
   threadFiles (snd (saveCachedThread (Str ''t1'')
          (Obj [(''labelIds'', Str ''L_A''), (''cachedAt'', Str ''now'')]) scenarioWorld)) ''t1'' =
     Some (cacheEntry [Str ''INBOX'', Str ''L_A''] ''earlier'')"
  using saveCachedThread_rejects_non_array
    [of "Obj [(''labelIds'', Str ''L_A''), (''cachedAt'', Str ''now'')]" "Str ''L_A''"
        "Str ''t1''" scenarioWorld]
  by (simp add: scenarioWorld_def emptyWorld_def warn_def)

text \<open>
  C10. Called with \<^verbatim>\<open>null\<close> or \<^verbatim>\<open>undefined\<close> in place of the entry, the write
  operation raises a TypeError: the read of \<^verbatim>\<open>data.labelIds\<close> fails before the guard
  is evaluated, so no warning is printed and nothing is written.
\<close>

theorem saveCachedThread_absent_entry:
  "saveCachedThread ident Null w = (Inl TypeError, w) \<and>
   saveCachedThread ident Undefined w = (Inl TypeError, w)"
  by (simp add: saveCachedThread_def)

section \<open>Properties of the fetcher\<close>




section \<open>Properties of the Thread ID Cache\<close>

text \<open>
  C8. When the load of the Thread ID Cache returns a truthy value, as every array
  is, \<^verbatim>\<open>getInboxThreads\<close> changes nothing: no list request is sent and the cache
  file is as before; an array is returned as the working set. When the load returns
  a falsy value (\<^verbatim>\<open>null\<close> for a missing or unparsable file) and the remote side
  serves the pages \<open>ps\<close>, the loop, given fuel for that many requests, asks for
  each page with \<^verbatim>\<open>maxResults\<close> 100 under the token of the page before, stops at the
  first page without a token, returns the identifiers of all pages in order and
  saves exactly that list.
\<close>

theorem getInboxThreads_cache_or_enumerate:
  "(truthy (fst (getCachedInboxThreadIds w)) \<longrightarrow>
      snd (getInboxThreads fuel gmail w) = w \<and>
      (\<forall>xs. fst (getCachedInboxThreadIds w) = Arr xs \<longrightarrow>
         fst (getInboxThreads fuel gmail w) = Some (Inr xs))) \<and>
   (\<not> truthy (fst (getCachedInboxThreadIds w)) \<and>
    servedPages gmail (length (listCalls w)) None ps \<and> length ps \<le> fuel \<longrightarrow>
      getInboxThreads fuel gmail w =
        (Some (Inr (map Str (concat (map pageIds ps)))),
         (snd (getCachedInboxThreadIds w))
           \<lparr>listCalls := listCalls w @ listRequests None ps,
            idsFile := Some (Json (Arr (map Str (concat (map pageIds ps)))))\<rparr>))"
proof (intro conjI impI allI)
  assume t: "truthy (fst (getCachedInboxThreadIds w))"
  obtain v w0 where g: "getCachedInboxThreadIds w = (v, w0)"
    by (cases "getCachedInboxThreadIds w") auto
  have w0: "w0 = w" using getCachedInboxThreadIds_truthy [OF t] g by simp
  show "snd (getInboxThreads fuel gmail w) = w"
    using t g w0 by (cases v) (simp_all add: getInboxThreads_def)
  fix xs assume "fst (getCachedInboxThreadIds w) = Arr xs"
  then show "fst (getInboxThreads fuel gmail w) = Some (Inr xs)"
    using g by (simp add: getInboxThreads_def)
next
  assume a: "\<not> truthy (fst (getCachedInboxThreadIds w)) \<and>
    servedPages gmail (length (listCalls w)) None ps \<and> length ps \<le> fuel"
  obtain v w0 where g: "getCachedInboxThreadIds w = (v, w0)"
    by (cases "getCachedInboxThreadIds w") auto
  have lc: "listCalls w0 = listCalls w"
    using g by (auto simp: getCachedInboxThreadIds_def warn_def split: option.splits sum.splits)
  have "listLoop fuel gmail [] None w0 =
     (Some (Inr ([] @ concat (map pageIds ps))),
      w0\<lparr>listCalls := listCalls w0 @ listRequests None ps\<rparr>)"
    using a lc by (intro listLoop_servedPages) simp_all
  then show "getInboxThreads fuel gmail w =
        (Some (Inr (map Str (concat (map pageIds ps)))),
         (snd (getCachedInboxThreadIds w))
           \<lparr>listCalls := listCalls w @ listRequests None ps,
            idsFile := Some (Json (Arr (map Str (concat (map pageIds ps)))))\<rparr>)"
    using a g lc
    by (simp add: getInboxThreads_def saveCachedInboxThreadIds_def JSON_roundtrip_strings
        del: JSON_roundtrip.simps)
qed

theorem getInboxThreads_cache_or_enumerate_witness:
  "getInboxThreads 0 twoPages cachedIdsWorld = (Some (Inr [Str ''t1'', Str ''t2'']), cachedIdsWorld) \<and>
   getInboxThreads 2 twoPages emptyWorld =
     (Some (Inr [Str ''t1'', Str ''t2'', Str ''t3'']),
      emptyWorld\<lparr>listCalls := [(''label:inbox'', 100, None), (''label:inbox'', 100, Some ''p2'')],
        idsFile := Some (Json (Arr [Str ''t1'', Str ''t2'', Str ''t3'']))\<rparr>)"
proof -
  have c: "getCachedInboxThreadIds cachedIdsWorld = (Arr [Str ''t1'', Str ''t2''], cachedIdsWorld)"
    by (simp add: getCachedInboxThreadIds_def cachedIdsWorld_def emptyWorld_def)
  have a: "getCachedInboxThreadIds emptyWorld = (Null, emptyWorld)"
    by (simp add: getCachedInboxThreadIds_def emptyWorld_def)
  have pre: "\<not> truthy (fst (getCachedInboxThreadIds emptyWorld)) \<and>
      servedPages twoPages (length (listCalls emptyWorld)) None
        [\<lparr>threads = Some [''t1'', ''t2''], nextPageToken = Some ''p2''\<rparr>,
         \<lparr>threads = Some [''t3''], nextPageToken = None\<rparr>] \<and>
      length [\<lparr>threads = Some [''t1'', ''t2''], nextPageToken = Some ''p2''\<rparr>,
         \<lparr>threads = Some [''t3''], nextPageToken = None\<rparr>] \<le> 2"
    by (simp add: a twoPages_def tokenTruthy_def)
  have t: "truthy (fst (getCachedInboxThreadIds cachedIdsWorld))"
    by (simp add: c)
  note hit = getInboxThreads_cache_or_enumerate [where w = cachedIdsWorld and fuel = 0
      and gmail = twoPages, THEN conjunct1, THEN mp, OF t]
  note miss = getInboxThreads_cache_or_enumerate [THEN conjunct2, THEN mp, OF pre]
  have "fst (getInboxThreads 0 twoPages cachedIdsWorld) = Some (Inr [Str ''t1'', Str ''t2''])"
    using hit c by simp
  moreover have "snd (getInboxThreads 0 twoPages cachedIdsWorld) = cachedIdsWorld"
    using hit by simp
  ultimately have "getInboxThreads 0 twoPages cachedIdsWorld =
      (Some (Inr [Str ''t1'', Str ''t2'']), cachedIdsWorld)"
    by (simp add: prod_eq_iff)
  moreover have "getInboxThreads 2 twoPages emptyWorld =
     (Some (Inr [Str ''t1'', Str ''t2'', Str ''t3'']),
      emptyWorld\<lparr>listCalls := listCalls emptyWorld @
          [(''label:inbox'', 100, None), (''label:inbox'', 100, Some ''p2'')],
        idsFile := Some (Json (Arr [Str ''t1'', Str ''t2'', Str ''t3'']))\<rparr>)"
    using miss by (simp add: a pageIds_def listRequests_def)
  ultimately show ?thesis
    by (simp add: emptyWorld_def)
qed

section \<open>Properties of the aggregation\<close>

text \<open>
  C1. On the scenario of the specification, with the labels \<^verbatim>\<open>L_A\<close> and \<^verbatim>\<open>L_B\<close>
  named Alpha and Beta, the run counts the cached thread under its label identifier
  and the fetched thread under its label name: the table is \<^verbatim>\<open>{L_A: 1, Beta: 1}\<close>,
  not \<^verbatim>\<open>{L_A: 1, L_B: 1}\<close>. Afterwards \<^verbatim>\<open>t2\<close> has a cache entry with the label
  identifiers fetched.
\<close>

theorem fetched_labels_counted_by_name:
  "fst (aggregate scenarioRemote scenarioNames now [Str ''t1'', Str ''t2''] scenarioWorld) =
     Inr \<lparr>labelCounts = [(''L_A'', 1), (''Beta'', 1)], usedCache = 1, usedApi = 1\<rparr> \<and>
   threadFiles (snd (aggregate scenarioRemote scenarioNames now [Str ''t1'', Str ''t2''] scenarioWorld)) ''t2'' =
     Some (cacheEntry [Str ''INBOX'', Str ''L_B''] now)"
  by (simp add: aggregate_def scanPhase_def scanThread_def emptyScan_def getCachedThread_def
      optProp_def isStableThread_def scenarioWorld_def emptyWorld_def cacheEntry_def
      fetchThread_def safeGetThread.simps attempt_def scenarioRemote_def threadResponse_def
      firstMessageLabels_def emptyLabels_def saveCachedThread_def lookupName_def scenarioNames_def
      countPhase_def countThread_def countLabel_def)

text \<open>
  C2. A run never deletes, nor changes, the cache file of an identifier that is not
  in the working set: the scan only visits the working set, so its branch for
  threads outside of it is never taken.
\<close>

theorem stale_entries_kept:
  assumes "p \<notin> toString ` set ids"
  shows "threadFiles (snd (aggregate gmail names now ids w)) p = threadFiles w p"
proof -
  obtain s w0 where sp: "scanPhase ids w = (s, w0)" by (cases "scanPhase ids w") auto
  have w0: "w0 = w" and tf: "toFetch s = filter (\<lambda>i. \<not> cacheTrusted w i) ids"
    using scanPhase_eq [of ids w] sp by simp_all
  have "p \<notin> toString ` set (toFetch s)"
    using assms tf by auto
  then have "threadFiles (snd (fetchPhase gmail names now (toFetch s) (labelResults s, w0))) p =
      threadFiles w p"
    using fetchPhase_other_files [of p "toFetch s" gmail names now "labelResults s" w0] w0 by simp
  moreover obtain r w2 where
    fp: "fetchPhase gmail names now (toFetch s) (labelResults s, w0) = (r, w2)"
    by (cases "fetchPhase gmail names now (toFetch s) (labelResults s, w0)") auto
  ultimately have "threadFiles w2 p = threadFiles w p" by simp
  then show ?thesis
    by (cases r) (simp_all add: aggregate_def sp fp)
qed

theorem stale_entries_kept_witness:
  "''t9'' \<notin> toString ` set [Str ''t1''] \<and>
   threadFiles (snd (aggregate scenarioRemote scenarioNames ''now'' [Str ''t1''] staleWorld)) ''t9'' =
     Some (cacheEntry [Str ''INBOX'', Str ''L_Z''] ''earlier'') \<and>
   fst (aggregate scenarioRemote scenarioNames ''now'' [Str ''t1''] staleWorld) =
     Inr \<lparr>labelCounts = [(''L_A'', 1)], usedCache = 1, usedApi = 0\<rparr>"
proof -
  have n: "''t9'' \<notin> toString ` set [Str ''t1'']" by simp
  have t: "fst (aggregate scenarioRemote scenarioNames ''now'' [Str ''t1''] staleWorld) =
     Inr \<lparr>labelCounts = [(''L_A'', 1)], usedCache = 1, usedApi = 0\<rparr>"
    by (simp add: aggregate_def scanPhase_def scanThread_def emptyScan_def getCachedThread_def
      optProp_def isStableThread_def staleWorld_def emptyWorld_def cacheEntry_def
      countPhase_def countThread_def countLabel_def)
  show ?thesis
    using stale_entries_kept [OF n, of scenarioRemote scenarioNames "''now''" staleWorld] t
    by (simp add: staleWorld_def emptyWorld_def)
qed

text \<open>
  C7, as the claim states it, fails: a thread fetched with an empty label list is
  cached with that list, which the stability predicate rejects, so the second run
  fetches it again.
\<close>

theorem empty_labels_fetched_again:
  "aggregate unlabelledRemote scenarioNames ''first'' [Str ''t1''] emptyWorld =
     (Inr \<lparr>labelCounts = [], usedCache = 0, usedApi = 1\<rparr>,
      emptyWorld\<lparr>threadFiles := [''t1'' \<mapsto> cacheEntry [] ''first''],
        warnings := [MissingOrEmptyLabels ''t1''], getCalls := [Str ''t1'']\<rparr>) \<and>
   getCalls (snd (aggregate unlabelledRemote scenarioNames ''second'' [Str ''t1'']
      (emptyWorld\<lparr>threadFiles := [''t1'' \<mapsto> cacheEntry [] ''first''],
        warnings := [MissingOrEmptyLabels ''t1''], getCalls := [Str ''t1'']\<rparr>))) =
     [Str ''t1'', Str ''t1'']"
  by (simp add: aggregate_def scanPhase_def scanThread_def emptyScan_def getCachedThread_def
      optProp_def isStableThread_def emptyWorld_def cacheEntry_def
      fetchThread_def safeGetThread.simps attempt_def unlabelledRemote_def threadResponse_def
      firstMessageLabels_def emptyLabels_def saveCachedThread_def lookupName_def warn_def
      countPhase_def countThread_def countLabel_def)

text \<open>
  C7, amended. When a first run succeeds and leaves no thread of the working set
  cached with an empty label list, a second run on the state it left, whatever the
  remote side, the label names and the time, succeeds and changes nothing (no fetch
  request, no warning, no write), and its table is computed from the cached label
  identifiers alone, so that every further run yields the same table.
\<close>

theorem second_run_from_cache:
  assumes "aggregate gmail names now ids w = (Inr c, w1)"
      and "noEmptyCached ids w1"
  shows "aggregate gmail' names' now' ids w1 =
           (Inr (countPhase ids (map (cachedResult w1) ids)), w1) \<and>
         getCalls (snd (aggregate gmail' names' now' ids w1)) = getCalls w1 \<and>
         threadFiles (snd (aggregate gmail' names' now' ids w1)) = threadFiles w1"
proof -
  have "\<forall>i \<in> set ids. cacheTrusted w1 i"
  proof
    fix i assume i: "i \<in> set ids"
    have "arrayCached w1 i" using aggregate_arrayCached [OF assms(1)] i by blast
    moreover have "cachedLabels w1 i \<noteq> Arr []"
      using assms(2) i by (simp add: noEmptyCached_def list_all_iff)
    ultimately show "cacheTrusted w1 i"
      by (cases "cachedLabels w1 i")
         (simp_all add: arrayCached_def cacheTrusted_def isStableThread_def)
  qed
  then have "aggregate gmail' names' now' ids w1 =
      (Inr (countPhase ids (map (cachedResult w1) ids)), w1)"
    by (rule aggregate_all_trusted)
  then show ?thesis by simp
qed

theorem second_run_from_cache_witness:
  "aggregate scenarioRemote scenarioNames ''first'' [Str ''t1'', Str ''t2''] scenarioWorld =
     (Inr \<lparr>labelCounts = [(''L_A'', 1), (''Beta'', 1)], usedCache = 1, usedApi = 1\<rparr>,
      afterFirstRun) \<and>
   noEmptyCached [Str ''t1'', Str ''t2''] afterFirstRun \<and>
   aggregate scenarioRemote scenarioNames ''second'' [Str ''t1'', Str ''t2''] afterFirstRun =
     (Inr \<lparr>labelCounts = [(''L_A'', 1), (''L_B'', 1)], usedCache = 2, usedApi = 0\<rparr>,
      afterFirstRun) \<and>
   getCalls afterFirstRun = [Str ''t2'']"
proof -
  have first: "aggregate scenarioRemote scenarioNames ''first'' [Str ''t1'', Str ''t2''] scenarioWorld =
     (Inr \<lparr>labelCounts = [(''L_A'', 1), (''Beta'', 1)], usedCache = 1, usedApi = 1\<rparr>,
      afterFirstRun)"
    by (simp add: aggregate_def scanPhase_def scanThread_def emptyScan_def getCachedThread_def
      optProp_def isStableThread_def scenarioWorld_def emptyWorld_def cacheEntry_def
      fetchThread_def safeGetThread.simps attempt_def scenarioRemote_def threadResponse_def
      firstMessageLabels_def emptyLabels_def saveCachedThread_def lookupName_def scenarioNames_def
      countPhase_def countThread_def countLabel_def afterFirstRun_def)
  have labels: "cachedLabels afterFirstRun (Str ''t1'') = Arr [Str ''INBOX'', Str ''L_A'']"
      "cachedLabels afterFirstRun (Str ''t2'') = Arr [Str ''INBOX'', Str ''L_B'']"
    by (simp_all add: cachedLabels_def getCachedThread_def optProp_def afterFirstRun_def
        scenarioWorld_def emptyWorld_def cacheEntry_def)
  have ne: "noEmptyCached [Str ''t1'', Str ''t2''] afterFirstRun"
    by (simp add: noEmptyCached_def labels)
  have "aggregate scenarioRemote scenarioNames ''second'' [Str ''t1'', Str ''t2''] afterFirstRun =
      (Inr (countPhase [Str ''t1'', Str ''t2'']
         (map (cachedResult afterFirstRun) [Str ''t1'', Str ''t2''])), afterFirstRun)"
    using second_run_from_cache [OF first ne] by simp
  then have second:
    "aggregate scenarioRemote scenarioNames ''second'' [Str ''t1'', Str ''t2''] afterFirstRun =
       (Inr \<lparr>labelCounts = [(''L_A'', 1), (''L_B'', 1)], usedCache = 2, usedApi = 0\<rparr>,
        afterFirstRun)"
    by (simp add: cachedResult_def labels countPhase_def countThread_def countLabel_def)
  have "getCalls afterFirstRun = [Str ''t2'']"
    by (simp add: afterFirstRun_def)
  with first ne second show ?thesis by simp
qed

section \<open>Properties of the report\<close>

text \<open>
  C9. For a table with a single entry the comparator is never called, so the report
  prints the row of the entry and no warning at all: for \<^verbatim>\<open>L_X\<close> without a name,
  the row shows the placeholder \<^verbatim>\<open>(missing name: L_X)\<close> and the warnings are as
  before.
\<close>

theorem single_missing_name_no_warning:
  "report localeCompare labelIdToName [e] w =
     ([padEnd 30 ''Label Name'' @ ''Inbox Threads'', replicate 40 CHR ''='',
       renderRow labelIdToName e], w) \<and>
   report localeCompare (\<lambda>k. None) [(''L_X'', 1)] emptyWorld =
     ([padEnd 30 ''Label Name'' @ ''Inbox Threads'', replicate 40 CHR ''='',
       padEnd 30 ''(missing name: L_X)'' @ ''1''], emptyWorld) \<and>
   warnings emptyWorld = []"
  by (simp add: report_def renderRow_def nameOrEmpty_def emptyWorld_def)

end
